theory Spec2Isabelle
  imports Main "HOL-Library.Word"
begin

section \<open>The Breagle TV lift cover entity (homeassistant/components/breagle/cover.py)\<close>

text \<open>
  The entity \<open>BreagleBT\<close> owns one Bluetooth connection to a lift, sends two fixed
  commands and tracks an availability flag. Its methods are embedded as functions
  from the entity's fields to a result and the updated fields. Everything the methods
  do to the outside (the Bluetooth transport, the host's state machine) is appended to
  an observation log, and the answers of the transport are a parameter that the
  theorems quantify over.
\<close>

subsection \<open>Python values, exceptions and results\<close>

text \<open>
  \<open>BleakError\<close> is the transport's exception; \<open>AttributeError\<close> is what Python raises
  for a method call on \<open>None\<close>; \<open>ValueError\<close> is what \<open>bytes.fromhex\<close> raises.
\<close>

datatype exn = BleakError | AttributeError | ValueError

datatype pyval = PyNone | PyBool bool

datatype 'a res = Return 'a | Raise exn

type_synonym handle = nat

type_synonym byte = "8 word"

subsection \<open>\<open>bytes.fromhex\<close>\<close>

text \<open>
  Two hexadecimal digits per byte, either case; ASCII blanks between bytes are skipped;
  anything else is a \<open>ValueError\<close> (here \<open>None\<close>).
\<close>

definition hexval :: "char \<Rightarrow> nat option" where
  "hexval c =
     (let n = (of_char c :: nat) in
      if 48 \<le> n \<and> n \<le> 57 then Some (n - 48)
      else if 65 \<le> n \<and> n \<le> 70 then Some (n - 55)
      else if 97 \<le> n \<and> n \<le> 102 then Some (n - 87)
      else None)"

definition is_blank :: "char \<Rightarrow> bool" where
  "is_blank c = ((of_char c :: nat) = 32 \<or> (9 \<le> (of_char c :: nat) \<and> (of_char c :: nat) \<le> 13))"

fun fromhex :: "string \<Rightarrow> byte list option" where
  "fromhex [] = Some []"
| "fromhex [c] = (if is_blank c then Some [] else None)"
| "fromhex (a # b # cs) =
     (if is_blank a then fromhex (b # cs)
      else (case (hexval a, hexval b) of
              (Some x, Some y) \<Rightarrow>
                (case fromhex cs of
                   None \<Rightarrow> None
                 | Some bs \<Rightarrow> Some (of_nat (16 * x + y) # bs))
            | _ \<Rightarrow> None))"

subsection \<open>Constants of the module\<close>

definition DOMAIN :: string where
  "DOMAIN = ''breagle''"

definition MODEL_TVLIFT :: string where
  "MODEL_TVLIFT = ''Breagle''"

definition MODEL_UNKNOWN :: string where
  "MODEL_UNKNOWN = ''Unknown''"

definition CONTROL_UUID :: string where
  "CONTROL_UUID = ''0000ffe1-0000-1000-8000-00805f9b34fb''"

text \<open>\<open>str.startswith\<close>.\<close>

definition startswith :: "string \<Rightarrow> string \<Rightarrow> bool" where
  "startswith s p = (take (length p) s = p)"

definition model_from_name :: "string \<Rightarrow> string" where
  "model_from_name ble_name =
     (if startswith ble_name ''limoss'' then MODEL_TVLIFT else MODEL_UNKNOWN)"

subsection \<open>The outside world\<close>

text \<open>
  What the entity does to its collaborators, in the order it does it:
  \<^item> \<open>ListenOnce\<close>: the shutdown listener registered by \<open>async_added_to_hass\<close>;
  \<^item> \<open>ScheduleUpdate force_refresh\<close>: \<open>async_schedule_update_ha_state\<close>;
  \<^item> \<open>Attempt ok\<close>: one connection attempt made inside \<open>establish_connection\<close>;
  \<^item> \<open>Teardown h ok\<close>: \<open>client.disconnect()\<close> on handle \<open>h\<close>, \<open>ok\<close> false when it raised
    \<open>BleakError\<close>;
  \<^item> \<open>Write h uuid bits ok\<close>: \<open>client.write_gatt_char(uuid, bits)\<close> on handle \<open>h\<close>,
    \<open>ok\<close> false when it raised \<open>BleakError\<close>;
  \<^item> \<open>Publish available is_closed\<close>: \<open>async_write_ha_state()\<close> with the snapshot the
    host reads from the two properties.
\<close>

datatype event =
    ListenOnce
  | ScheduleUpdate bool
  | Attempt bool
  | Teardown handle bool
  | Write handle string "byte list" bool
  | Publish "bool option" "bool option"

text \<open>
  The transport's answers. Each is asked at a point in time, the number of events
  logged so far, so that the same call can succeed once and fail later; nothing relates
  the answers to each other. A transport call that fails raises \<open>BleakError\<close>, the one
  kind of error the transport has; publishing the state does not fail. A call of a
  method runs to its end before the next one starts.
\<close>

record transport =
  attempt_ok :: "nat \<Rightarrow> bool"
  teardown_ok :: "nat \<Rightarrow> bool"
  write_ok :: "nat \<Rightarrow> bool"
  is_connected :: "nat \<Rightarrow> handle \<Rightarrow> bool"

subsection \<open>The entity\<close>

record ble_device =
  address :: string
  ble_name :: string

text \<open>
  The fields \<open>_client\<close>, \<open>_ble_device\<close>, \<open>_name\<close>, \<open>_mac\<close>, \<open>_is_closed\<close>, \<open>_available\<close>
  and \<open>_model\<close> of the class, and the observation log. \<open>None\<close> in \<open>client\<close>,
  \<open>is_closed\<close> and \<open>available\<close> is Python's \<open>None\<close>. The entity id, which the host
  generates, is left out.
\<close>

record breagle_bt =
  client :: "handle option"
  device :: ble_device
  name :: string
  mac :: string
  is_closed :: "bool option"
  available :: "bool option"
  model :: string
  events :: "event list"

definition init :: "string \<Rightarrow> ble_device \<Rightarrow> breagle_bt" where
  "init nm dev =
     \<lparr> client = None,
       device = dev,
       name = nm,
       mac = address dev,
       is_closed = None,
       available = None,
       model = model_from_name (ble_name dev),
       events = [] \<rparr>"

definition emit :: "event \<Rightarrow> breagle_bt \<Rightarrow> breagle_bt" where
  "emit ev s = s\<lparr>events := events s @ [ev]\<rparr>"

definition now :: "breagle_bt \<Rightarrow> nat" where
  "now s = length (events s)"

definition async_write_ha_state :: "breagle_bt \<Rightarrow> breagle_bt" where
  "async_write_ha_state s = emit (Publish (available s) (is_closed s)) s"

subsection \<open>The transport's primitives\<close>

text \<open>
  Modelled from the spec: \<open>establish_connection\<close> of the connection helper library is
  not part of the repository. The spec describes it as a connect-with-retry primitive
  that takes a maximum number of attempts and returns a live handle or fails: it makes
  one attempt after the other, returns the handle of the first that succeeds, and raises
  \<open>BleakError\<close> when \<open>max_attempts\<close> of them have failed. A new handle is named by the
  time of its creation, so no two handles are equal.
\<close>

fun establish_connection :: "transport \<Rightarrow> nat \<Rightarrow> breagle_bt \<Rightarrow> handle res \<times> breagle_bt" where
  "establish_connection t 0 s = (Raise BleakError, s)"
| "establish_connection t (Suc n) s =
     (if attempt_ok t (now s) then (Return (now s), emit (Attempt True) s)
      else establish_connection t n (emit (Attempt False) s))"

text \<open>
  \<open>BleakClient.disconnect\<close> and \<open>BleakClient.write_gatt_char\<close>, of the Bluetooth
  library: each logs the call with its outcome and returns, or raises \<open>BleakError\<close>.
\<close>

definition client_disconnect :: "transport \<Rightarrow> handle \<Rightarrow> breagle_bt \<Rightarrow> pyval res \<times> breagle_bt" where
  "client_disconnect t h s =
     (if teardown_ok t (now s) then (Return PyNone, emit (Teardown h True) s)
      else (Raise BleakError, emit (Teardown h False) s))"

definition write_gatt_char ::
    "transport \<Rightarrow> handle \<Rightarrow> string \<Rightarrow> byte list \<Rightarrow> breagle_bt \<Rightarrow> pyval res \<times> breagle_bt" where
  "write_gatt_char t h uuid bits s =
     (if write_ok t (now s) then (Return PyNone, emit (Write h uuid bits True) s)
      else (Raise BleakError, emit (Write h uuid bits False) s))"

subsection \<open>The methods\<close>

text \<open>\<open>except BleakError\<close>: the handler runs for \<open>BleakError\<close>, anything else goes on up.\<close>

definition except_BleakError ::
    "'a res \<times> breagle_bt \<Rightarrow> (breagle_bt \<Rightarrow> 'a res \<times> breagle_bt) \<Rightarrow> 'a res \<times> breagle_bt" where
  "except_BleakError body handler =
     (case body of
        (Return v, s) \<Rightarrow> (Return v, s)
      | (Raise x, s) \<Rightarrow> (if x = BleakError then handler s else (Raise x, s)))"

definition disconnect :: "transport \<Rightarrow> breagle_bt \<Rightarrow> pyval res \<times> breagle_bt" where
  "disconnect t s =
     (case client s of
        None \<Rightarrow> (Return PyNone, s)
      | Some h \<Rightarrow>
          (case except_BleakError (client_disconnect t h s) (\<lambda>s'. (Return PyNone, s')) of
             (Raise x, s1) \<Rightarrow> (Raise x, s1)
           | (Return _, s1) \<Rightarrow>
               (Return PyNone, async_write_ha_state (s1\<lparr>available := Some False\<rparr>))))"

text \<open>The transport calls \<open>diconnected_cb\<close> with the client whose link dropped.\<close>

definition diconnected_cb :: "handle \<Rightarrow> breagle_bt \<Rightarrow> pyval res \<times> breagle_bt" where
  "diconnected_cb c s = (Return PyNone, async_write_ha_state (s\<lparr>available := Some False\<rparr>))"

text \<open>
  \<open>connect\<close>: a \<open>BleakClient\<close> object is always truthy, so \<open>if self._client\<close> asks
  whether the field is not \<open>None\<close>. The body of the \<open>try\<close> is \<open>connect_try\<close>. The
  parameter \<open>num_tries\<close>, 3 when the caller gives none, is not read by the body; the
  number of attempts handed to the helper is the literal 4.
\<close>

definition connect_try :: "transport \<Rightarrow> breagle_bt \<Rightarrow> pyval res \<times> breagle_bt" where
  "connect_try t s =
     (case (if client s \<noteq> None then disconnect t s else (Return PyNone, s)) of
        (Raise x, s1) \<Rightarrow> (Raise x, s1)
      | (Return _, s1) \<Rightarrow>
          (case establish_connection t 4 s1 of
             (Raise x, s2) \<Rightarrow> (Raise x, s2)
           | (Return h, s2) \<Rightarrow>
               (Return PyNone,
                async_write_ha_state (s2\<lparr>client := Some h, available := Some True\<rparr>))))"

definition connect :: "transport \<Rightarrow> nat \<Rightarrow> breagle_bt \<Rightarrow> pyval res \<times> breagle_bt" where
  "connect t num_tries s =
     (case (case client s of
              None \<Rightarrow> (Return PyNone, s)
            | Some h \<Rightarrow>
                (if \<not> is_connected t (now s) h then disconnect t s else (Return PyNone, s))) of
        (Raise x, s0) \<Rightarrow> (Raise x, s0)
      | (Return _, s0) \<Rightarrow>
          except_BleakError (connect_try t s0) (\<lambda>s'. (Return PyNone, s')))"

definition async_added_to_hass :: "transport \<Rightarrow> breagle_bt \<Rightarrow> pyval res \<times> breagle_bt" where
  "async_added_to_hass t s =
     except_BleakError
       (case connect t 3 (emit (ScheduleUpdate True) (emit ListenOnce s)) of
          (Raise x, s1) \<Rightarrow> (Raise x, s1)
        | (Return _, s1) \<Rightarrow> (Return PyNone, s1))
       (\<lambda>s'. (Return PyNone, s'))"

definition async_will_remove_from_hass :: "transport \<Rightarrow> breagle_bt \<Rightarrow> pyval res \<times> breagle_bt" where
  "async_will_remove_from_hass t s =
     except_BleakError
       (case disconnect t s of
          (Raise x, s1) \<Rightarrow> (Raise x, s1)
        | (Return _, s1) \<Rightarrow> (Return PyNone, s1))
       (\<lambda>s'. (Return PyNone, s'))"

text \<open>\<open>not self._available\<close> holds for \<open>None\<close> and for \<open>False\<close>.\<close>

definition async_update :: "transport \<Rightarrow> breagle_bt \<Rightarrow> pyval res \<times> breagle_bt" where
  "async_update t s =
     (if available s \<noteq> Some True then
        (case connect t 3 s of
           (Raise x, s1) \<Rightarrow> (Raise x, s1)
         | (Return _, s1) \<Rightarrow> (Return PyNone, s1))
      else (Return PyNone, s))"

text \<open>
  \<open>send_cmd\<close>: the attribute lookup \<open>self._client.write_gatt_char\<close> is inside the
  \<open>try\<close>; on \<open>None\<close> it raises \<open>AttributeError\<close>, which \<open>except BleakError\<close> does not
  catch.
\<close>

definition send_cmd :: "transport \<Rightarrow> byte list \<Rightarrow> breagle_bt \<Rightarrow> pyval res \<times> breagle_bt" where
  "send_cmd t bits s =
     (case (if available s \<noteq> Some True then connect t 3 s else (Return PyNone, s)) of
        (Raise x, s0) \<Rightarrow> (Raise x, s0)
      | (Return _, s0) \<Rightarrow>
          except_BleakError
            (case (case client s0 of
                     None \<Rightarrow> (Raise AttributeError, s0)
                   | Some h \<Rightarrow> write_gatt_char t h CONTROL_UUID bits s0) of
               (Raise x, s1) \<Rightarrow> (Raise x, s1)
             | (Return _, s1) \<Rightarrow> (Return (PyBool True), s1))
            (\<lambda>s'. (Return (PyBool False), s')))"

text \<open>
  The two commands. The state is set and published after \<open>send_cmd\<close> whatever it
  returned; an exception of \<open>bytes.fromhex\<close> or of \<open>send_cmd\<close> leaves the method before
  that.
\<close>

definition async_close_cover :: "transport \<Rightarrow> breagle_bt \<Rightarrow> pyval res \<times> breagle_bt" where
  "async_close_cover t s =
     (case fromhex ''DDA212A0446A3DBFC7A2'' of
        None \<Rightarrow> (Raise ValueError, s)
      | Some bits \<Rightarrow>
          (case send_cmd t bits s of
             (Raise x, s1) \<Rightarrow> (Raise x, s1)
           | (Return _, s1) \<Rightarrow>
               (Return PyNone, async_write_ha_state (s1\<lparr>is_closed := Some True\<rparr>))))"

definition async_open_cover :: "transport \<Rightarrow> breagle_bt \<Rightarrow> pyval res \<times> breagle_bt" where
  "async_open_cover t s =
     (case fromhex ''DD29CCEA3FEE319C540A'' of
        None \<Rightarrow> (Raise ValueError, s)
      | Some bits \<Rightarrow>
          (case send_cmd t bits s of
             (Raise x, s1) \<Rightarrow> (Raise x, s1)
           | (Return _, s1) \<Rightarrow>
               (Return PyNone, async_write_ha_state (s1\<lparr>is_closed := Some False\<rparr>))))"

subsection \<open>States inside a call\<close>

text \<open>Two abbreviations for the proofs; neither is a method of the class.\<close>

text \<open>
  The state in which \<open>connect\<close> reaches the call of \<open>establish_connection\<close>: the
  entity after the teardowns that \<open>connect\<close> makes first. The lemmas on \<open>connect\<close> are
  stated with it.
\<close>

definition before_establish :: "transport \<Rightarrow> breagle_bt \<Rightarrow> breagle_bt" where
  "before_establish t s =
     (case client s of
        None \<Rightarrow> s
      | Some h \<Rightarrow>
          snd (disconnect t (if \<not> is_connected t (now s) h then snd (disconnect t s) else s)))"

text \<open>
  The state in which \<open>send_cmd\<close> reaches the write: the entity after the connection
  attempt that \<open>send_cmd\<close> makes when it is not available. The lemmas on
  \<open>send_cmd\<close> and the two commands are stated with it.
\<close>

definition before_write :: "transport \<Rightarrow> breagle_bt \<Rightarrow> breagle_bt" where
  "before_write t s = (if available s \<noteq> Some True then snd (connect t 3 s) else s)"

subsection \<open>Sequences of calls\<close>

text \<open>
  The entry points through which the host, the transport and the user reach the entity.
  The entity lives on after a call that raised, with the fields as the call left them.
  The disconnect callback is an entry point of its own: the transport calls it when a
  link drops, outside the methods.
\<close>

datatype op =
    AddedToHass
  | WillRemoveFromHass
  | Connect nat
  | Disconnect
  | DisconnectedCb handle
  | Update
  | SendCmd "byte list"
  | CloseCover
  | OpenCover

fun step :: "transport \<Rightarrow> op \<Rightarrow> breagle_bt \<Rightarrow> pyval res \<times> breagle_bt" where
  "step t AddedToHass s = async_added_to_hass t s"
| "step t WillRemoveFromHass s = async_will_remove_from_hass t s"
| "step t (Connect num_tries) s = connect t num_tries s"
| "step t Disconnect s = disconnect t s"
| "step t (DisconnectedCb c) s = diconnected_cb c s"
| "step t Update s = async_update t s"
| "step t (SendCmd bits) s = send_cmd t bits s"
| "step t CloseCover s = async_close_cover t s"
| "step t OpenCover s = async_open_cover t s"

fun exec :: "transport \<Rightarrow> op list \<Rightarrow> breagle_bt \<Rightarrow> breagle_bt" where
  "exec t [] s = s"
| "exec t (c # cs) s = exec t cs (snd (step t c s))"

fun outcomes :: "transport \<Rightarrow> op list \<Rightarrow> breagle_bt \<Rightarrow> pyval res list" where
  "outcomes t [] s = []"
| "outcomes t (c # cs) s = fst (step t c s) # outcomes t cs (snd (step t c s))"

subsection \<open>Reading the observation log\<close>

text \<open>The events logged between two states of the entity.\<close>

definition since :: "breagle_bt \<Rightarrow> breagle_bt \<Rightarrow> event list" where
  "since s s' = drop (now s) (events s')"

fun attempts :: "event list \<Rightarrow> nat" where
  "attempts [] = 0"
| "attempts (Attempt ok # evs) = Suc (attempts evs)"
| "attempts (ev # evs) = attempts evs"

fun writes :: "event list \<Rightarrow> (string \<times> byte list \<times> bool) list" where
  "writes [] = []"
| "writes (Write h uuid bits ok # evs) = (uuid, bits, ok) # writes evs"
| "writes (ev # evs) = writes evs"

text \<open>
  The position the entity believes in after a call: the commanded one when the call was
  a cover command that returned, the one before otherwise.
\<close>

fun belief_after :: "op \<Rightarrow> pyval res \<Rightarrow> bool option \<Rightarrow> bool option" where
  "belief_after OpenCover (Return v) b = Some False"
| "belief_after CloseCover (Return v) b = Some True"
| "belief_after c r b = b"

fun commanded :: "bool option \<Rightarrow> op list \<Rightarrow> pyval res list \<Rightarrow> bool option" where
  "commanded b (c # cs) (r # rs) = commanded (belief_after c r b) cs rs"
| "commanded b cs rs = b"

subsection \<open>Scenarios\<close>

definition lift_device :: ble_device where
  "lift_device = \<lparr> address = ''AA:BB:CC:DD:EE:FF'', ble_name = ''limoss-lift-1'' \<rparr>"

definition fresh :: breagle_bt where
  "fresh = init DOMAIN lift_device"

text \<open>A lift out of reach: no connection attempt ever succeeds.\<close>

definition out_of_reach :: transport where
  "out_of_reach =
     \<lparr> attempt_ok = (\<lambda>k. False), teardown_ok = (\<lambda>k. True),
       write_ok = (\<lambda>k. False), is_connected = (\<lambda>k h. False) \<rparr>"

text \<open>A lift in reach: every transport call succeeds.\<close>

definition in_reach :: transport where
  "in_reach =
     \<lparr> attempt_ok = (\<lambda>k. True), teardown_ok = (\<lambda>k. True),
       write_ok = (\<lambda>k. True), is_connected = (\<lambda>k h. True) \<rparr>"

text \<open>A lift that accepts the connection and then rejects every write.\<close>

definition rejects_writes :: transport where
  "rejects_writes =
     \<lparr> attempt_ok = (\<lambda>k. True), teardown_ok = (\<lambda>k. True),
       write_ok = (\<lambda>k. False), is_connected = (\<lambda>k h. True) \<rparr>"

text \<open>
  A link that is established by the first attempt and then stays up: the session cannot
  be torn down (\<open>client.disconnect()\<close> raises), the lift, being connected, answers no
  new connection attempt, and writes through the first handle go through.
\<close>

definition stays_up :: transport where
  "stays_up =
     \<lparr> attempt_ok = (\<lambda>k. k = 0), teardown_ok = (\<lambda>k. False),
       write_ok = (\<lambda>k. True), is_connected = (\<lambda>k h. True) \<rparr>"

text \<open>
  The entity after a connection over \<open>stays_up\<close> and a \<open>disconnect\<close> (the host's
  shutdown hook, say) that could not tear the session down.
\<close>

definition link_kept :: breagle_bt where
  "link_kept = snd (disconnect stays_up (snd (connect stays_up 3 fresh)))"

text \<open>The entity after a first connection to a lift in reach.\<close>

definition connected_once :: breagle_bt where
  "connected_once = snd (connect in_reach 3 fresh)"

section \<open>Properties\<close>

lemma fromhex_close:
  "fromhex ''DDA212A0446A3DBFC7A2'' = Some [0xDD, 0xA2, 0x12, 0xA0, 0x44, 0x6A, 0x3D, 0xBF, 0xC7, 0xA2]"
  by (simp add: hexval_def is_blank_def)

lemma fromhex_open:
  "fromhex ''DD29CCEA3FEE319C540A'' = Some [0xDD, 0x29, 0xCC, 0xEA, 0x3F, 0xEE, 0x31, 0x9C, 0x54, 0x0A]"
  by (simp add: hexval_def is_blank_def)

subsection \<open>The observation log\<close>

lemma attempts_append: "attempts (xs @ ys) = attempts xs + attempts ys"
  by (induction xs rule: attempts.induct) simp_all

lemma writes_append: "writes (xs @ ys) = writes xs @ writes ys"
  by (induction xs rule: writes.induct) simp_all

lemma attempts_replicate: "attempts (replicate n (Attempt b)) = n"
  by (induction n) simp_all

lemma writes_replicate: "writes (replicate n (Attempt b)) = []"
  by (induction n) simp_all

lemma attempts_0_notin: "attempts evs = 0 \<Longrightarrow> Attempt b \<notin> set evs"
  by (induction evs rule: attempts.induct) simp_all

subsection \<open>The transport's primitives\<close>

lemma est_cases:
  "establish_connection t n s = (r, s') \<Longrightarrow>
     (\<exists>k<n. r = Return (now s + k) \<and>
         s' = s\<lparr>events := events s @ replicate k (Attempt False) @ [Attempt True]\<rparr>) \<or>
     (r = Raise BleakError \<and> s' = s\<lparr>events := events s @ replicate n (Attempt False)\<rparr>)"
proof (induction n arbitrary: s)
  case 0
  then show ?case by simp
next
  case (Suc n)
  show ?case
  proof (cases "attempt_ok t (now s)")
    case True
    with Suc.prems show ?thesis by (auto simp: emit_def now_def)
  next
    case False
    with Suc.prems have "establish_connection t n (emit (Attempt False) s) = (r, s')"
      by simp
    from Suc.IH[OF this] show ?thesis
      apply (elim disjE exE conjE)
      subgoal for k
        apply (rule disjI1)
        apply (rule exI[of _ "Suc k"])
        apply (simp add: now_def emit_def)
        done
      subgoal
        apply (rule disjI2)
        apply (simp add: emit_def replicate_app_Cons_same)
        done
      done
  qed
qed

lemma est_all_fail:
  "\<forall>k. \<not> attempt_ok t k \<Longrightarrow>
   establish_connection t n s =
     (Raise BleakError, s\<lparr>events := events s @ replicate n (Attempt False)\<rparr>)"
  by (induction n arbitrary: s) (simp_all add: emit_def replicate_app_Cons_same)

lemma est4:
  "establish_connection t 4 s = establish_connection t (Suc (Suc (Suc (Suc 0)))) s"
  by (simp add: eval_nat_numeral)

subsection \<open>\<open>disconnect\<close>\<close>

lemma disconnect_None: "client s = None \<Longrightarrow> disconnect t s = (Return PyNone, s)"
  by (simp add: disconnect_def)

lemma disconnect_Some:
  "client s = Some h \<Longrightarrow>
   disconnect t s =
     (Return PyNone,
      s\<lparr>available := Some False,
        events := events s @
          [Teardown h (teardown_ok t (now s)), Publish (Some False) (is_closed s)]\<rparr>)"
  by (simp add: disconnect_def client_disconnect_def except_BleakError_def
      async_write_ha_state_def emit_def)

subsection \<open>\<open>connect\<close>\<close>

lemma before_establish_None: "client s = None \<Longrightarrow> before_establish t s = s"
  by (simp add: before_establish_def)

lemma before_establish_Some:
  "client s = Some h \<Longrightarrow>
   before_establish t s =
     s\<lparr>available := Some False, events := events s @ since s (before_establish t s)\<rparr> \<and>
   since s (before_establish t s) \<noteq> [] \<and>
   attempts (since s (before_establish t s)) = 0 \<and>
   writes (since s (before_establish t s)) = []"
  by (cases "is_connected t (now s) h")
    (simp_all add: before_establish_def disconnect_Some since_def now_def)

lemma connect_eq:
  "connect t m s =
     (Return PyNone,
      case establish_connection t 4 (before_establish t s) of
        (Return h, s2) \<Rightarrow> async_write_ha_state (s2\<lparr>client := Some h, available := Some True\<rparr>)
      | (Raise x, s2) \<Rightarrow> s2)"
proof (cases "client s")
  case None
  obtain r s2 where e: "establish_connection t 4 s = (r, s2)" by force
  from est_cases[OF e] None e show ?thesis
    by (auto simp add: connect_def connect_try_def except_BleakError_def before_establish_def simp del: establish_connection.simps)
next
  case (Some h)
  let ?s0 = "if \<not> is_connected t (now s) h then snd (disconnect t s) else s"
  have c0: "client ?s0 = Some h" using Some by (simp add: disconnect_Some)
  obtain r s2 where e: "establish_connection t 4 (snd (disconnect t ?s0)) = (r, s2)" by force
  from est_cases[OF e] Some e c0 show ?thesis
    by (auto simp add: connect_def connect_try_def except_BleakError_def before_establish_def disconnect_Some simp del: establish_connection.simps)
qed

lemma connect_cases:
  "connect t m s = (r, s') \<Longrightarrow>
   r = Return PyNone \<and>
   (\<exists>tds. attempts tds = 0 \<and> writes tds = [] \<and> (tds = [] \<longleftrightarrow> client s = None) \<and>
      ((\<exists>k<4. s' = s\<lparr>client := Some (now s + length tds + k), available := Some True,
                  events := events s @ tds @ replicate k (Attempt False) @
                    [Attempt True, Publish (Some True) (is_closed s)]\<rparr>) \<or>
       s' = s\<lparr>available := (if client s = None then available s else Some False),
              events := events s @ tds @ replicate 4 (Attempt False)\<rparr>))"
proof -
  assume c: "connect t m s = (r, s')"
  obtain q s2 where e: "establish_connection t 4 (before_establish t s) = (q, s2)" by force
  show ?thesis
  proof (cases "client s")
    case None
    from est_cases[OF e] c e None show ?thesis
      by (auto simp add: connect_eq before_establish_None async_write_ha_state_def emit_def
          simp del: establish_connection.simps)
  next
    case (Some h)
    note b = before_establish_Some[OF Some, of t]
    let ?tds = "since s (before_establish t s)"
    from b have b1: "before_establish t s = s\<lparr>available := Some False, events := events s @ ?tds\<rparr>"
      by blast
    have n: "now (before_establish t s) = now s + length ?tds"
      by (subst b1) (simp add: now_def)
    from est_cases[OF e] show ?thesis
    proof (elim disjE exE conjE)
      fix k assume k: "k < 4" and q: "q = Return (now (before_establish t s) + k)"
        and s2: "s2 = (before_establish t s)\<lparr>events := events (before_establish t s) @ replicate k (Attempt False) @ [Attempt True]\<rparr>"
      have "s' = s\<lparr>client := Some (now s + length ?tds + k), available := Some True,
                  events := events s @ ?tds @ replicate k (Attempt False) @
                    [Attempt True, Publish (Some True) (is_closed s)]\<rparr>"
        using c e q s2 n by (subst (asm) (2 3) b1) (simp add: connect_eq async_write_ha_state_def emit_def)
      with b k Some c show ?thesis
        apply (intro conjI)
         apply (simp add: connect_eq)
        apply (rule exI[of _ ?tds])
        apply simp
        apply blast
        done
    next
      assume q: "q = Raise BleakError"
        and s2: "s2 = (before_establish t s)\<lparr>events := events (before_establish t s) @ replicate 4 (Attempt False)\<rparr>"
      have "s' = s\<lparr>available := Some False, events := events s @ ?tds @ replicate 4 (Attempt False)\<rparr>"
        using c e q s2 by (subst (asm) (1 2) b1) (simp add: connect_eq)
      with b Some c show ?thesis
        apply (intro conjI)
         apply (simp add: connect_eq)
        apply (rule exI[of _ ?tds])
        apply simp
        done
    qed
  qed
qed

lemma connect_returns: "fst (connect t m s) = Return PyNone"
  by (simp add: connect_eq)

lemma connect_is_closed: "is_closed (snd (connect t m s)) = is_closed s"
  using connect_cases[OF prod.collapse[symmetric], of t m s] by auto

lemma connect_client: "client s = Some h \<Longrightarrow> \<exists>h'. client (snd (connect t m s)) = Some h'"
  using connect_cases[OF prod.collapse[symmetric], of t m s] by auto

lemma connect_all_fail:
  "\<forall>k. \<not> attempt_ok t k \<Longrightarrow>
   connect t m s =
     (Return PyNone,
      (before_establish t s)\<lparr>events := events (before_establish t s) @ replicate 4 (Attempt False)\<rparr>)"
  by (simp add: connect_eq est_all_fail del: establish_connection.simps)

lemma before_establish_client: "client (before_establish t s) = client s"
  by (cases "client s") (simp_all add: before_establish_def disconnect_Some)

lemma connect_events:
  "\<exists>evs. events (snd (connect t m s)) = events s @ evs \<and> writes evs = [] \<and>
         1 \<le> attempts evs \<and> attempts evs \<le> 4 \<and>
         (available (snd (connect t m s)) = Some True \<longleftrightarrow> Attempt True \<in> set evs \<or> (available s = Some True \<and> client s = None))"
  using connect_cases[OF prod.collapse[symmetric], of t m s]
  apply (elim conjE exE disjE)
  subgoal for tds k
    apply (rule exI[of _ "tds @ replicate k (Attempt False) @ [Attempt True, Publish (Some True) (is_closed s)]"])
    apply (simp add: attempts_append writes_append attempts_replicate writes_replicate)
    done
  subgoal for tds
    apply (rule exI[of _ "tds @ replicate 4 (Attempt False)"])
    apply (simp only: attempts_append writes_append attempts_replicate writes_replicate)
    apply (auto dest: attempts_0_notin)
    done
  done

subsection \<open>\<open>send_cmd\<close> and the cover commands\<close>

lemma send_cmd_eq:
  "send_cmd t bits s =
     (case client (before_write t s) of
        None \<Rightarrow> (Raise AttributeError, before_write t s)
      | Some h \<Rightarrow>
          (Return (PyBool (write_ok t (now (before_write t s)))),
           emit (Write h CONTROL_UUID bits (write_ok t (now (before_write t s)))) (before_write t s)))"
  by (cases "connect t 3 s")
     (auto simp add: send_cmd_def before_write_def except_BleakError_def write_gatt_char_def
           dest: connect_cases split: option.splits)

lemma close_eq:
  "async_close_cover t s =
     (case client (before_write t s) of
        None \<Rightarrow> (Raise AttributeError, before_write t s)
      | Some h \<Rightarrow>
          (Return PyNone,
           (before_write t s)\<lparr>is_closed := Some True,
             events := events (before_write t s) @
               [Write h CONTROL_UUID [0xDD, 0xA2, 0x12, 0xA0, 0x44, 0x6A, 0x3D, 0xBF, 0xC7, 0xA2]
                  (write_ok t (now (before_write t s))),
                Publish (available (before_write t s)) (Some True)]\<rparr>))"
  by (simp add: async_close_cover_def fromhex_close send_cmd_eq async_write_ha_state_def emit_def
      del: fromhex.simps split: option.splits)

lemma open_eq:
  "async_open_cover t s =
     (case client (before_write t s) of
        None \<Rightarrow> (Raise AttributeError, before_write t s)
      | Some h \<Rightarrow>
          (Return PyNone,
           (before_write t s)\<lparr>is_closed := Some False,
             events := events (before_write t s) @
               [Write h CONTROL_UUID [0xDD, 0x29, 0xCC, 0xEA, 0x3F, 0xEE, 0x31, 0x9C, 0x54, 0x0A]
                  (write_ok t (now (before_write t s))),
                Publish (available (before_write t s)) (Some False)]\<rparr>))"
  by (simp add: async_open_cover_def fromhex_open send_cmd_eq async_write_ha_state_def emit_def
      del: fromhex.simps split: option.splits)

lemma before_write_is_closed: "is_closed (before_write t s) = is_closed s"
  by (simp add: before_write_def connect_is_closed)

lemma before_write_client: "client s = Some h \<Longrightarrow> \<exists>h'. client (before_write t s) = Some h'"
  by (simp add: before_write_def connect_client)

lemma before_write_events:
  "\<exists>evs. events (before_write t s) = events s @ evs \<and> writes evs = [] \<and>
         attempts evs \<le> 4 \<and>
         (available (before_write t s) = Some True \<longleftrightarrow>
            available s = Some True \<or> Attempt True \<in> set evs)"
proof (cases "available s = Some True")
  case True
  then show ?thesis by (simp add: before_write_def)
next
  case False
  with connect_events[of t 3 s] show ?thesis
    by (auto simp: before_write_def)
qed

subsection \<open>The lifecycle hooks and the periodic update\<close>

lemma added_eq:
  "async_added_to_hass t s =
     (Return PyNone, snd (connect t 3 (emit (ScheduleUpdate True) (emit ListenOnce s))))"
  by (cases "connect t 3 (emit (ScheduleUpdate True) (emit ListenOnce s))")
     (auto simp: async_added_to_hass_def except_BleakError_def dest: connect_cases)

lemma will_remove_eq:
  "async_will_remove_from_hass t s = (Return PyNone, snd (disconnect t s))"
  by (cases "client s")
     (simp_all add: async_will_remove_from_hass_def except_BleakError_def disconnect_None disconnect_Some)

lemma update_eq: "async_update t s = (Return PyNone, before_write t s)"
  by (cases "connect t 3 s")
     (auto simp: async_update_def before_write_def dest: connect_cases)

subsection \<open>Every entry point\<close>

lemma disconnect_is_closed: "is_closed (snd (disconnect t s)) = is_closed s"
  by (cases "client s") (simp_all add: disconnect_None disconnect_Some)

lemma disconnect_client: "client (snd (disconnect t s)) = client s"
  by (cases "client s") (simp_all add: disconnect_None disconnect_Some)

lemma step_is_closed:
  "is_closed (snd (step t c s)) = belief_after c (fst (step t c s)) (is_closed s)"
proof (cases c)
  case AddedToHass
  then show ?thesis by (simp add: added_eq connect_is_closed emit_def)
next
  case WillRemoveFromHass
  then show ?thesis by (simp add: will_remove_eq disconnect_is_closed)
next
  case (Connect m)
  then show ?thesis by (simp add: connect_is_closed connect_returns)
next
  case Disconnect
  then show ?thesis by (cases "fst (disconnect t s)") (simp_all add: disconnect_is_closed)
next
  case (DisconnectedCb hc)
  then show ?thesis by (simp add: diconnected_cb_def async_write_ha_state_def emit_def)
next
  case Update
  then show ?thesis by (simp add: update_eq before_write_is_closed)
next
  case (SendCmd bits)
  then show ?thesis
    by (cases "client (before_write t s)")
       (simp_all add: send_cmd_eq before_write_is_closed emit_def)
next
  case CloseCover
  then show ?thesis
    by (cases "client (before_write t s)") (simp_all add: close_eq before_write_is_closed)
next
  case OpenCover
  then show ?thesis
    by (cases "client (before_write t s)") (simp_all add: open_eq before_write_is_closed)
qed

lemma step_client:
  assumes "client s = Some h"
  shows "\<exists>h'. client (snd (step t c s)) = Some h'"
proof (cases c)
  case AddedToHass
  have "client (emit (ScheduleUpdate True) (emit ListenOnce s)) = Some h"
    using assms by (simp add: emit_def)
  from connect_client[OF this] AddedToHass show ?thesis by (simp add: added_eq)
next
  case WillRemoveFromHass
  then show ?thesis using assms by (simp add: will_remove_eq disconnect_client)
next
  case (Connect m)
  then show ?thesis using connect_client[OF assms] by simp
next
  case Disconnect
  then show ?thesis using assms by (simp add: disconnect_client)
next
  case (DisconnectedCb hc)
  then show ?thesis using assms by (simp add: diconnected_cb_def async_write_ha_state_def emit_def)
next
  case Update
  then show ?thesis using before_write_client[OF assms] by (simp add: update_eq)
next
  case (SendCmd bits)
  then show ?thesis using before_write_client[OF assms, of t]
    by (auto simp add: send_cmd_eq emit_def)
next
  case CloseCover
  then show ?thesis using before_write_client[OF assms, of t]
    by (auto simp add: close_eq)
next
  case OpenCover
  then show ?thesis using before_write_client[OF assms, of t]
    by (auto simp add: open_eq)
qed

lemma exec_is_closed:
  "is_closed (exec t cs s) = commanded (is_closed s) cs (outcomes t cs s)"
  by (induction cs arbitrary: s) (simp_all add: step_is_closed)

lemma step_out_of_reach:
  assumes f: "\<forall>k. \<not> attempt_ok t k" and c: "client s = None"
    and a: "available s \<noteq> Some True" and k: "c = AddedToHass \<or> c = Update"
  shows "fst (step t c s) = Return PyNone \<and> client (snd (step t c s)) = None \<and>
    available (snd (step t c s)) = available s"
proof -
  have e: "client (emit (ScheduleUpdate True) (emit ListenOnce s)) = None"
    using c by (simp add: emit_def)
  from k show ?thesis
  proof
    assume "c = AddedToHass"
    then show ?thesis using f e c
      by (simp add: added_eq connect_all_fail before_establish_None emit_def)
  next
    assume "c = Update"
    then show ?thesis using f c a
      by (simp add: update_eq before_write_def connect_all_fail before_establish_None)
  qed
qed

lemma exec_out_of_reach:
  assumes f: "\<forall>k. \<not> attempt_ok t k"
  shows "client s = None \<Longrightarrow> available s \<noteq> Some True \<Longrightarrow>
    list_all (\<lambda>c. c = AddedToHass \<or> c = Update) cs \<Longrightarrow>
    list_all (\<lambda>r. r = Return PyNone) (outcomes t cs s) \<and>
    client (exec t cs s) = None \<and> available (exec t cs s) = available s"
proof (induction cs arbitrary: s)
  case Nil
  then show ?case by simp
next
  case (Cons c cs)
  from Cons.prems have k: "c = AddedToHass \<or> c = Update" by simp
  note st = step_out_of_reach[OF f Cons.prems(1) Cons.prems(2) k]
  from st Cons.prems have "list_all (\<lambda>r. r = Return PyNone) (outcomes t cs (snd (step t c s))) \<and>
    client (exec t cs (snd (step t c s))) = None \<and>
    available (exec t cs (snd (step t c s))) = available (snd (step t c s))"
    by (intro Cons.IH) simp_all
  with st show ?case by simp
qed

section \<open>The claims of the specification\<close>

subsection \<open>\<open>send_cmd\<close> without a handle\<close>

text \<open>
  Claim C1 says that \<open>send_cmd\<close> returns a boolean for every payload and never raises,
  also when it is called while unavailable and its connection attempt fails, so that
  there is no client handle. On a new entity whose lift is out of reach the code does
  otherwise: \<open>connect\<close> swallows the transport's error, the handle is still \<open>None\<close>, and
  the method call on it raises \<open>AttributeError\<close>, which the handler for \<open>BleakError\<close>
  lets through.
\<close>

theorem send_cmd_raises_without_handle:
  "send_cmd out_of_reach bits (init nm dev) =
     (Raise AttributeError,
      (init nm dev)\<lparr>events := [Attempt False, Attempt False, Attempt False, Attempt False]\<rparr>)"
  by (simp add: send_cmd_eq before_write_def connect_eq before_establish_def init_def
      out_of_reach_def emit_def now_def est4)

subsection \<open>\<open>disconnect\<close> without a handle\<close>

text \<open>
  Claim C8: \<open>disconnect\<close> on an entity with no client handle is a no-op. It returns
  without raising, leaves every field as it was, the availability flag among them, and
  logs nothing, so no state is published.
\<close>

theorem disconnect_without_handle_is_noop:
  "client s = None \<Longrightarrow>
   disconnect t s = (Return PyNone, s) \<and> since s (snd (disconnect t s)) = []"
  by (simp add: disconnect_def since_def now_def)

theorem disconnect_without_handle_is_noop_witness:
  "client fresh = None \<and> disconnect in_reach fresh = (Return PyNone, fresh) \<and>
   since fresh (snd (disconnect in_reach fresh)) = []"
  using disconnect_without_handle_is_noop[of fresh in_reach]
  by (simp add: fresh_def init_def since_def now_def)

subsection \<open>The cover commands set the position whatever the write did\<close>

text \<open>
  Claim C2: after \<open>async_open_cover\<close> returns, \<open>is_closed\<close> is false, after
  \<open>async_close_cover\<close> returns it is true, and the state has been published, the last
  thing the call did, whether \<open>send_cmd\<close> returned success or failure. A call returns
  exactly when its \<open>send_cmd\<close> returned a boolean; the witness has one command whose
  write failed and one whose write succeeded.
\<close>

theorem cover_commands_are_optimistic:
  "(async_open_cover t s = (Return v, s') \<longrightarrow>
      is_closed s' = Some False \<and>
      (\<exists>b s1. send_cmd t [0xDD, 0x29, 0xCC, 0xEA, 0x3F, 0xEE, 0x31, 0x9C, 0x54, 0x0A] s =
                 (Return (PyBool b), s1) \<and>
               events s' = events s1 @ [Publish (available s') (Some False)])) \<and>
   (async_close_cover t s = (Return v, s') \<longrightarrow>
      is_closed s' = Some True \<and>
      (\<exists>b s1. send_cmd t [0xDD, 0xA2, 0x12, 0xA0, 0x44, 0x6A, 0x3D, 0xBF, 0xC7, 0xA2] s =
                 (Return (PyBool b), s1) \<and>
               events s' = events s1 @ [Publish (available s') (Some True)]))"
  by (cases "client (before_write t s)")
     (auto simp add: open_eq close_eq send_cmd_eq emit_def)

theorem cover_commands_are_optimistic_witness:
  "async_open_cover rejects_writes fresh =
     (Return PyNone, snd (async_open_cover rejects_writes fresh)) \<and>
   fst (send_cmd rejects_writes [0xDD, 0x29, 0xCC, 0xEA, 0x3F, 0xEE, 0x31, 0x9C, 0x54, 0x0A] fresh) =
     Return (PyBool False) \<and>
   is_closed (snd (async_open_cover rejects_writes fresh)) = Some False \<and>
   async_close_cover in_reach fresh =
     (Return PyNone, snd (async_close_cover in_reach fresh)) \<and>
   fst (send_cmd in_reach [0xDD, 0xA2, 0x12, 0xA0, 0x44, 0x6A, 0x3D, 0xBF, 0xC7, 0xA2] fresh) =
     Return (PyBool True) \<and>
   is_closed (snd (async_close_cover in_reach fresh)) = Some True"
proof -
  have c1: "client (before_write rejects_writes fresh) = Some 0"
    by (simp add: before_write_def connect_eq before_establish_def fresh_def init_def
        rejects_writes_def emit_def now_def async_write_ha_state_def est4)
  have c2: "client (before_write in_reach fresh) = Some 0"
    by (simp add: before_write_def connect_eq before_establish_def fresh_def init_def
        in_reach_def emit_def now_def async_write_ha_state_def est4)
  have o: "async_open_cover rejects_writes fresh =
      (Return PyNone, snd (async_open_cover rejects_writes fresh))"
    by (simp add: open_eq c1)
  have c: "async_close_cover in_reach fresh =
      (Return PyNone, snd (async_close_cover in_reach fresh))"
    by (simp add: close_eq c2)
  have w1: "fst (send_cmd rejects_writes [0xDD, 0x29, 0xCC, 0xEA, 0x3F, 0xEE, 0x31, 0x9C, 0x54, 0x0A] fresh) =
     Return (PyBool False)"
    by (simp add: send_cmd_eq c1, simp add: rejects_writes_def)
  have w2: "fst (send_cmd in_reach [0xDD, 0xA2, 0x12, 0xA0, 0x44, 0x6A, 0x3D, 0xBF, 0xC7, 0xA2] fresh) =
     Return (PyBool True)"
    by (simp add: send_cmd_eq c2, simp add: in_reach_def)
  from cover_commands_are_optimistic[of rejects_writes fresh PyNone
      "snd (async_open_cover rejects_writes fresh)"] o
  have "is_closed (snd (async_open_cover rejects_writes fresh)) = Some False" by blast
  moreover
  from cover_commands_are_optimistic[of in_reach fresh PyNone
      "snd (async_close_cover in_reach fresh)"] c
  have "is_closed (snd (async_close_cover in_reach fresh)) = Some True" by blast
  ultimately show ?thesis using o c w1 w2 by blast
qed

subsection \<open>How \<open>connect\<close> reports a failure\<close>

text \<open>
  Claim C3 says that a failed \<open>connect\<close> does not raise to the callers on the schedule
  but hands a boolean failure result to a caller such as \<open>send_cmd\<close>. The method has no
  result: on a lift out of reach and on one in reach it returns the same \<open>None\<close>, and
  only the fields differ.
\<close>

theorem connect_failure_result_counterexample:
  "fst (connect out_of_reach 3 fresh) \<noteq> Return (PyBool False) \<and>
   fst (connect out_of_reach 3 fresh) = fst (connect in_reach 3 fresh) \<and>
   available (snd (connect out_of_reach 3 fresh)) = None \<and>
   available (snd (connect in_reach 3 fresh)) = Some True"
  by (simp add: connect_eq before_establish_def fresh_def init_def
        in_reach_def out_of_reach_def emit_def now_def async_write_ha_state_def est4)

text \<open>
  Claim C3, as amended: \<open>connect\<close> raises to no caller, neither to the periodic update
  nor to the startup hook nor to \<open>send_cmd\<close>, and returns \<open>None\<close> on failure as on
  success. A failure shows in the fields only: when every attempt fails the handle is
  the one from before, and \<open>available\<close> is what it was when there was no handle and
  false when there was one.
\<close>

theorem connect_failure_is_silent:
  "fst (connect t m s) = Return PyNone \<and>
   fst (async_update t s) = Return PyNone \<and>
   fst (async_added_to_hass t s) = Return PyNone \<and>
   ((\<forall>k. \<not> attempt_ok t k) \<longrightarrow>
      client (snd (connect t m s)) = client s \<and>
      available (snd (connect t m s)) = (if client s = None then available s else Some False))"
proof -
  have "client (snd (connect t m s)) = client s \<and>
      available (snd (connect t m s)) = (if client s = None then available s else Some False)"
    if "\<forall>k. \<not> attempt_ok t k"
  proof (cases "client s")
    case None
    then show ?thesis using that by (simp add: connect_all_fail before_establish_None)
  next
    case (Some h)
    from before_establish_Some[OF Some, of t]
    have b: "before_establish t s =
        s\<lparr>available := Some False, events := events s @ since s (before_establish t s)\<rparr>"
      by blast
    have "client (before_establish t s) = client s" "available (before_establish t s) = Some False"
      by (subst b, simp)+
    then show ?thesis using that Some by (simp add: connect_all_fail)
  qed
  then show ?thesis by (simp add: connect_eq update_eq added_eq)
qed

theorem connect_failure_is_silent_witness:
  "(\<forall>k. \<not> attempt_ok out_of_reach k) \<and>
   fst (connect out_of_reach 3 fresh) = Return PyNone \<and>
   client (snd (connect out_of_reach 3 fresh)) = None \<and>
   available (snd (connect out_of_reach 3 fresh)) = None"
  using connect_failure_is_silent[where t = out_of_reach and s = fresh and m = 3]
  by (simp add: out_of_reach_def fresh_def init_def)

subsection \<open>Availability after a command that was written\<close>

lemma link_kept_eval:
  "link_kept =
     fresh\<lparr>client := Some 0, available := Some False,
       events := [Attempt True, Publish (Some True) None,
                  Teardown 0 False, Publish (Some False) None]\<rparr>"
  by (simp add: link_kept_def connect_eq before_establish_def disconnect_def
      client_disconnect_def except_BleakError_def fresh_def init_def
      stays_up_def emit_def now_def async_write_ha_state_def est4)

text \<open>
  Claim C4 says that after an \<open>async_open_cover\<close> whose write succeeded \<open>is_closed\<close> is
  false and \<open>available\<close> is true. The write does not touch \<open>available\<close>. On the
  link that stays up, after a \<open>disconnect\<close> that could not tear it down, the command
  tries to connect again, fails, writes through the handle it still has, and the write
  goes through: the position is set, and \<open>available\<close> is false.
\<close>

theorem open_after_write_counterexample:
  "fst (async_open_cover stays_up link_kept) = Return PyNone \<and>
   writes (since link_kept (snd (async_open_cover stays_up link_kept))) =
     [(CONTROL_UUID, [0xDD, 0x29, 0xCC, 0xEA, 0x3F, 0xEE, 0x31, 0x9C, 0x54, 0x0A], True)] \<and>
   is_closed (snd (async_open_cover stays_up link_kept)) = Some False \<and>
   available (snd (async_open_cover stays_up link_kept)) = Some False"
  by (simp add: link_kept_eval open_eq before_write_def connect_eq before_establish_def
      disconnect_def client_disconnect_def except_BleakError_def fresh_def init_def
      stays_up_def emit_def now_def since_def async_write_ha_state_def est4)

text \<open>
  Claim C4, as amended: after an \<open>async_open_cover\<close> whose characteristic write
  succeeded, \<open>is_closed\<close> is false. That \<open>available\<close> is true does not follow: the
  write does not set it. The write succeeded when \<open>send_cmd\<close> returned true; the call
  then returns, the position is set, and the one write the call made is the open
  payload, written with success.
\<close>

theorem open_after_successful_write:
  assumes "send_cmd t [0xDD, 0x29, 0xCC, 0xEA, 0x3F, 0xEE, 0x31, 0x9C, 0x54, 0x0A] s =
      (Return (PyBool True), s1)"
  shows "fst (async_open_cover t s) = Return PyNone \<and>
    is_closed (snd (async_open_cover t s)) = Some False \<and>
    writes (since s (snd (async_open_cover t s))) =
      [(CONTROL_UUID, [0xDD, 0x29, 0xCC, 0xEA, 0x3F, 0xEE, 0x31, 0x9C, 0x54, 0x0A], True)]"
proof -
  from assms obtain h where h: "client (before_write t s) = Some h"
    by (cases "client (before_write t s)") (auto simp: send_cmd_eq)
  from assms h have w: "write_ok t (now (before_write t s))"
    by (simp add: send_cmd_eq)
  from before_write_events[of t s] obtain evs where
    e: "events (before_write t s) = events s @ evs" "writes evs = []" by blast
  have "since s (snd (async_open_cover t s)) = evs @
      [Write h CONTROL_UUID [0xDD, 0x29, 0xCC, 0xEA, 0x3F, 0xEE, 0x31, 0x9C, 0x54, 0x0A] True,
       Publish (available (before_write t s)) (Some False)]"
    using h w by (simp add: open_eq since_def now_def e)
  then show ?thesis using h e(2) by (simp add: open_eq writes_append)
qed

theorem open_after_successful_write_witness:
  "send_cmd in_reach [0xDD, 0x29, 0xCC, 0xEA, 0x3F, 0xEE, 0x31, 0x9C, 0x54, 0x0A] fresh =
     (Return (PyBool True),
      snd (send_cmd in_reach [0xDD, 0x29, 0xCC, 0xEA, 0x3F, 0xEE, 0x31, 0x9C, 0x54, 0x0A] fresh)) \<and>
   fst (async_open_cover in_reach fresh) = Return PyNone \<and>
   is_closed (snd (async_open_cover in_reach fresh)) = Some False"
proof -
  have c: "client (before_write in_reach fresh) = Some 0"
    by (simp add: before_write_def connect_eq before_establish_def fresh_def init_def
        in_reach_def emit_def now_def async_write_ha_state_def est4)
  have w: "send_cmd in_reach [0xDD, 0x29, 0xCC, 0xEA, 0x3F, 0xEE, 0x31, 0x9C, 0x54, 0x0A] fresh =
     (Return (PyBool True),
      snd (send_cmd in_reach [0xDD, 0x29, 0xCC, 0xEA, 0x3F, 0xEE, 0x31, 0x9C, 0x54, 0x0A] fresh))"
    by (simp add: send_cmd_eq c, simp add: in_reach_def)
  from open_after_successful_write[OF w] w show ?thesis by blast
qed

subsection \<open>Startup with the lift out of reach\<close>

text \<open>
  Claim C5: when every connection attempt fails, the entity ends unavailable and no
  exception leaves \<open>async_added_to_hass\<close>. The flag is read by its truth value
  (\<open>not self._available\<close>), and it is not true after the hook: the constructor's
  \<open>None\<close> is still there, and there is no client handle. The same holds after any
  sequence of the hook and of the refreshes it schedules, all of which return.
\<close>

theorem startup_out_of_reach_stays_unavailable:
  assumes "\<forall>k. \<not> attempt_ok t k"
  shows "fst (async_added_to_hass t (init nm dev)) = Return PyNone \<and>
    available (snd (async_added_to_hass t (init nm dev))) \<noteq> Some True \<and>
    client (snd (async_added_to_hass t (init nm dev))) = None \<and>
    (list_all (\<lambda>c. c = AddedToHass \<or> c = Update) cs \<longrightarrow>
       list_all (\<lambda>r. r = Return PyNone) (outcomes t cs (init nm dev)) \<and>
       available (exec t cs (init nm dev)) \<noteq> Some True \<and>
       client (exec t cs (init nm dev)) = None)"
proof -
  have i: "client (init nm dev) = None" "available (init nm dev) \<noteq> Some True"
    by (simp_all add: init_def)
  from step_out_of_reach[OF assms i, of AddedToHass] i
  have 1: "fst (async_added_to_hass t (init nm dev)) = Return PyNone \<and>
    available (snd (async_added_to_hass t (init nm dev))) \<noteq> Some True \<and>
    client (snd (async_added_to_hass t (init nm dev))) = None"
    by simp
  from exec_out_of_reach[OF assms i, of cs] i
  have 2: "list_all (\<lambda>c. c = AddedToHass \<or> c = Update) cs \<longrightarrow>
       list_all (\<lambda>r. r = Return PyNone) (outcomes t cs (init nm dev)) \<and>
       available (exec t cs (init nm dev)) \<noteq> Some True \<and>
       client (exec t cs (init nm dev)) = None"
    by simp
  from 1 2 show ?thesis by blast
qed

theorem startup_out_of_reach_stays_unavailable_witness:
  "(\<forall>k. \<not> attempt_ok out_of_reach k) \<and>
   list_all (\<lambda>c. c = AddedToHass \<or> c = Update) [AddedToHass, Update, Update] \<and>
   fst (async_added_to_hass out_of_reach fresh) = Return PyNone \<and>
   available (snd (async_added_to_hass out_of_reach fresh)) \<noteq> Some True \<and>
   list_all (\<lambda>r. r = Return PyNone) (outcomes out_of_reach [AddedToHass, Update, Update] fresh) \<and>
   available (exec out_of_reach [AddedToHass, Update, Update] fresh) \<noteq> Some True"
proof -
  have f: "\<forall>k. \<not> attempt_ok out_of_reach k" by (simp add: out_of_reach_def)
  have l: "list_all (\<lambda>c. c = AddedToHass \<or> c = Update) [AddedToHass, Update, Update]" by simp
  from startup_out_of_reach_stays_unavailable[OF f, of DOMAIN lift_device "[AddedToHass, Update, Update]"] f l
  show ?thesis unfolding fresh_def by blast
qed

subsection \<open>The number of connection attempts\<close>

text \<open>
  Claim C7: every connection establishment of \<open>connect\<close> is bounded by four attempts.
  The helper makes at most as many attempts as it is given; \<open>connect\<close> calls it once,
  with four, whatever its own parameter \<open>num_tries\<close> is, and has no loop of its own,
  so one call of \<open>connect\<close> makes at least one and at most four attempts, and exactly
  four when all of them fail. \<open>connect\<close> is a total function: it returns after these
  attempts.
\<close>

theorem connect_makes_at_most_four_attempts:
  "attempts (since s (snd (establish_connection t n s))) \<le> n \<and>
   1 \<le> attempts (since s (snd (connect t m s))) \<and>
   attempts (since s (snd (connect t m s))) \<le> 4 \<and>
   ((\<forall>k. \<not> attempt_ok t k) \<longrightarrow> attempts (since s (snd (connect t m s))) = 4)"
proof -
  have 1: "attempts (since s (snd (establish_connection t n s))) \<le> n"
    using est_cases[OF prod.collapse[symmetric], where t = t and n = n and s = s]
    by (auto simp: since_def now_def attempts_append attempts_replicate)
  from connect_events[of t m s] obtain evs where
    e: "events (snd (connect t m s)) = events s @ evs" and
    a: "1 \<le> attempts evs" "attempts evs \<le> 4"
    by blast
  have 2: "since s (snd (connect t m s)) = evs"
    by (simp add: since_def now_def e)
  have 3: "attempts (since s (snd (connect t m s))) = 4" if f: "\<forall>k. \<not> attempt_ok t k"
  proof (cases "client s")
    case None
    then show ?thesis using f
      by (simp add: connect_all_fail before_establish_None since_def now_def attempts_replicate)
  next
    case (Some h)
    define tds where "tds = since s (before_establish t s)"
    from before_establish_Some[OF Some, of t]
    have b: "before_establish t s = s\<lparr>available := Some False, events := events s @ tds\<rparr>"
      and z: "attempts tds = 0"
      unfolding tds_def by blast+
    have "events (before_establish t s) = events s @ tds"
      by (subst b) simp
    then have "events (snd (connect t m s)) = events s @ tds @ replicate 4 (Attempt False)"
      using f by (simp add: connect_all_fail)
    then have "since s (snd (connect t m s)) = tds @ replicate 4 (Attempt False)"
      by (simp add: since_def now_def)
    then show ?thesis using z by (simp add: attempts_append attempts_replicate)
  qed
  from 1 2 3 a show ?thesis by simp
qed

theorem connect_makes_at_most_four_attempts_witness:
  "(\<forall>k. \<not> attempt_ok out_of_reach k) \<and>
   attempts (since fresh (snd (connect out_of_reach 3 fresh))) = 4"
  using connect_makes_at_most_four_attempts[where s = fresh and t = out_of_reach and m = 3]
  by (simp add: out_of_reach_def)

subsection \<open>Close, then open\<close>

text \<open>
  Claim C9: \<open>async_close_cover\<close> and then \<open>async_open_cover\<close>, with the writes
  succeeding, end with \<open>is_closed\<close> false, and the two calls together write exactly
  two payloads to the control characteristic: the ten bytes of the close command
  first, the ten bytes of the open command second.
\<close>

theorem close_then_open_writes_two_payloads:
  assumes "async_close_cover t s = (Return v, s1)"
    and "async_open_cover t s1 = (Return w, s2)"
    and "\<forall>k. write_ok t k"
  shows "is_closed s2 = Some False \<and>
    writes (since s s2) =
      [(CONTROL_UUID, [0xDD, 0xA2, 0x12, 0xA0, 0x44, 0x6A, 0x3D, 0xBF, 0xC7, 0xA2], True),
       (CONTROL_UUID, [0xDD, 0x29, 0xCC, 0xEA, 0x3F, 0xEE, 0x31, 0x9C, 0x54, 0x0A], True)]"
proof -
  from before_write_events[of t s] obtain e1 where
    e1: "events (before_write t s) = events s @ e1" "writes e1 = []" by blast
  from before_write_events[of t s1] obtain e2 where
    e2: "events (before_write t s1) = events s1 @ e2" "writes e2 = []" by blast
  from assms(1) obtain h1 where h1: "client (before_write t s) = Some h1"
    by (cases "client (before_write t s)") (auto simp: close_eq)
  from assms(2) obtain h2 where h2: "client (before_write t s1) = Some h2"
    by (cases "client (before_write t s1)") (auto simp: open_eq)
  from assms(1,3) h1 have s1: "events s1 = events (before_write t s) @
      [Write h1 CONTROL_UUID [0xDD, 0xA2, 0x12, 0xA0, 0x44, 0x6A, 0x3D, 0xBF, 0xC7, 0xA2] True,
       Publish (available (before_write t s)) (Some True)]"
    by (auto simp: close_eq)
  from assms(2,3) h2 have s2: "events s2 = events (before_write t s1) @
      [Write h2 CONTROL_UUID [0xDD, 0x29, 0xCC, 0xEA, 0x3F, 0xEE, 0x31, 0x9C, 0x54, 0x0A] True,
       Publish (available (before_write t s1)) (Some False)]"
    and c: "is_closed s2 = Some False"
    by (auto simp: open_eq)
  have "since s s2 = e1 @
      [Write h1 CONTROL_UUID [0xDD, 0xA2, 0x12, 0xA0, 0x44, 0x6A, 0x3D, 0xBF, 0xC7, 0xA2] True,
       Publish (available (before_write t s)) (Some True)] @ e2 @
      [Write h2 CONTROL_UUID [0xDD, 0x29, 0xCC, 0xEA, 0x3F, 0xEE, 0x31, 0x9C, 0x54, 0x0A] True,
       Publish (available (before_write t s1)) (Some False)]"
    by (simp add: since_def now_def s2 e2 s1 e1)
  then show ?thesis using c e1(2) e2(2) by (simp add: writes_append)
qed

theorem close_then_open_writes_two_payloads_witness:
  "async_close_cover in_reach fresh = (Return PyNone, snd (async_close_cover in_reach fresh)) \<and>
   async_open_cover in_reach (snd (async_close_cover in_reach fresh)) =
     (Return PyNone, snd (async_open_cover in_reach (snd (async_close_cover in_reach fresh)))) \<and>
   (\<forall>k. write_ok in_reach k) \<and>
   is_closed (snd (async_open_cover in_reach (snd (async_close_cover in_reach fresh)))) = Some False \<and>
   writes (since fresh (snd (async_open_cover in_reach (snd (async_close_cover in_reach fresh))))) =
      [(CONTROL_UUID, [0xDD, 0xA2, 0x12, 0xA0, 0x44, 0x6A, 0x3D, 0xBF, 0xC7, 0xA2], True),
       (CONTROL_UUID, [0xDD, 0x29, 0xCC, 0xEA, 0x3F, 0xEE, 0x31, 0x9C, 0x54, 0x0A], True)]"
proof -
  have c1: "client (before_write in_reach fresh) = Some 0"
    by (simp add: before_write_def connect_eq before_establish_def fresh_def init_def
        in_reach_def emit_def now_def async_write_ha_state_def est4)
  have a: "async_close_cover in_reach fresh =
      (Return PyNone, snd (async_close_cover in_reach fresh))"
    by (simp add: close_eq c1)
  obtain h where "client (snd (async_close_cover in_reach fresh)) = Some h"
    by (simp add: close_eq c1)
  from before_write_client[OF this] obtain h' where
    c2: "client (before_write in_reach (snd (async_close_cover in_reach fresh))) = Some h'"
    by blast
  have b: "async_open_cover in_reach (snd (async_close_cover in_reach fresh)) =
     (Return PyNone, snd (async_open_cover in_reach (snd (async_close_cover in_reach fresh))))"
    by (simp add: open_eq c2)
  have w: "\<forall>k. write_ok in_reach k" by (simp add: in_reach_def)
  from close_then_open_writes_two_payloads[OF a b w] a b w show ?thesis by blast
qed

subsection \<open>What changes the believed position\<close>

text \<open>
  Claim C6: \<open>is_closed\<close> is \<open>None\<close> from construction until the first open or close
  command that succeeds, that is, returns; no other operation changes it, so it is
  never inferred from the state of the connection. A call changes \<open>is_closed\<close> only
  when it is a cover command that returned, to the commanded value then; a cover command
  that raised, \<open>connect\<close>, \<open>disconnect\<close>, the disconnect callback, the periodic
  update, the lifecycle hooks and a bare \<open>send_cmd\<close> leave it as it was. After any
  sequence of calls on a new entity it is the value commanded by the last cover command
  that returned, and \<open>None\<close> when there was none.
\<close>

theorem is_closed_follows_the_commands_only:
  "is_closed (init nm dev) = None \<and>
   is_closed (snd (step t c s)) = belief_after c (fst (step t c s)) (is_closed s) \<and>
   is_closed (exec t cs (init nm dev)) = commanded None cs (outcomes t cs (init nm dev)) \<and>
   (list_all (\<lambda>c. c \<noteq> OpenCover \<and> c \<noteq> CloseCover) cs \<longrightarrow>
      is_closed (exec t cs s) = is_closed s)"
proof -
  have "is_closed (exec t cs s) = is_closed s"
    if "list_all (\<lambda>c. c \<noteq> OpenCover \<and> c \<noteq> CloseCover) cs"
    using that
  proof (induction cs arbitrary: s)
    case Nil
    then show ?case by simp
  next
    case (Cons c cs)
    then have "belief_after c (fst (step t c s)) (is_closed s) = is_closed s"
      by (cases c) simp_all
    with Cons show ?case by (simp add: step_is_closed)
  qed
  moreover have "is_closed (init nm dev) = None" by (simp add: init_def)
  ultimately show ?thesis
    using exec_is_closed[of t cs "init nm dev"] by (simp add: step_is_closed)
qed

theorem is_closed_follows_the_commands_only_witness:
  "list_all (\<lambda>c. c \<noteq> OpenCover \<and> c \<noteq> CloseCover)
     [AddedToHass, Update, Disconnect, Connect 3, DisconnectedCb 0, SendCmd [], WillRemoveFromHass] \<and>
   is_closed (exec in_reach
     [AddedToHass, Update, Disconnect, Connect 3, DisconnectedCb 0, SendCmd [], WillRemoveFromHass]
     fresh) = None"
  using is_closed_follows_the_commands_only[of DOMAIN lift_device in_reach "Connect 3" fresh
      "[AddedToHass, Update, Disconnect, Connect 3, DisconnectedCb 0, SendCmd [], WillRemoveFromHass]"]
  by (simp add: fresh_def init_def)

subsection \<open>The handle outlives the session\<close>

lemma connected_once_eval:
  "connected_once =
     fresh\<lparr>client := Some 0, available := Some True,
       events := [Attempt True, Publish (Some True) None]\<rparr>"
  by (simp add: connected_once_def connect_eq before_establish_def fresh_def init_def
      in_reach_def emit_def now_def async_write_ha_state_def est4)

text \<open>
  Claim C10: once \<open>connect\<close> has assigned a client handle, no operation resets it to
  \<open>None\<close>. \<open>disconnect\<close> tears the session down, sets \<open>available\<close> to false and
  publishes, and leaves the handle in place; a second \<open>disconnect\<close> therefore attempts
  the teardown on the same handle again and publishes again; and a \<open>send_cmd\<close> after
  it, when the reconnection fails, still attempts its write through that handle.
\<close>

theorem handle_is_never_reset:
  assumes "client s = Some h"
  shows "(\<exists>h'. client (snd (step t c s)) = Some h') \<and>
    disconnect t s =
      (Return PyNone,
       s\<lparr>available := Some False,
         events := events s @
           [Teardown h (teardown_ok t (now s)), Publish (Some False) (is_closed s)]\<rparr>) \<and>
    client (snd (disconnect t s)) = Some h \<and>
    since (snd (disconnect t s)) (snd (disconnect t (snd (disconnect t s)))) =
      [Teardown h (teardown_ok t (now s + 2)), Publish (Some False) (is_closed s)] \<and>
    ((\<forall>k. \<not> attempt_ok t k) \<longrightarrow>
       (\<exists>ok. last (events (snd (send_cmd t bits (snd (disconnect t s))))) =
               Write h CONTROL_UUID bits ok))"
proof -
  let ?d = "snd (disconnect t s)"
  have d: "disconnect t s =
      (Return PyNone,
       s\<lparr>available := Some False,
         events := events s @
           [Teardown h (teardown_ok t (now s)), Publish (Some False) (is_closed s)]\<rparr>)"
    by (rule disconnect_Some[OF assms])
  have dc: "client ?d = Some h" by (simp add: d assms)
  have dd: "since ?d (snd (disconnect t ?d)) =
      [Teardown h (teardown_ok t (now s + 2)), Publish (Some False) (is_closed s)]"
    by (simp add: disconnect_Some[OF dc], simp add: d since_def now_def)
  have w: "\<exists>ok. last (events (snd (send_cmd t bits ?d))) = Write h CONTROL_UUID bits ok"
    if f: "\<forall>k. \<not> attempt_ok t k"
  proof -
    have a: "available ?d \<noteq> Some True" by (simp add: d)
    have "client (before_establish t ?d) = Some h"
      by (simp add: before_establish_client dc)
    then have "client (before_write t ?d) = Some h"
      using a f by (simp add: before_write_def connect_all_fail)
    then show ?thesis by (simp add: send_cmd_eq emit_def)
  qed
  from step_client[OF assms] d dc dd w show ?thesis by blast
qed

theorem handle_is_never_reset_witness:
  "client connected_once = Some 0 \<and>
   (\<forall>k. \<not> attempt_ok out_of_reach k) \<and>
   client (snd (disconnect out_of_reach connected_once)) = Some 0 \<and>
   available (snd (disconnect out_of_reach connected_once)) = Some False \<and>
   since (snd (disconnect out_of_reach connected_once))
     (snd (disconnect out_of_reach (snd (disconnect out_of_reach connected_once)))) =
     [Teardown 0 True, Publish (Some False) None] \<and>
   (\<exists>ok. last (events (snd (send_cmd out_of_reach [0xDD]
              (snd (disconnect out_of_reach connected_once))))) =
          Write 0 CONTROL_UUID [0xDD] ok)"
proof -
  have c: "client connected_once = Some 0" by (simp add: connected_once_eval)
  have f: "\<forall>k. \<not> attempt_ok out_of_reach k" by (simp add: out_of_reach_def)
  have i: "is_closed connected_once = None" by (simp add: connected_once_eval fresh_def init_def)
  have t: "teardown_ok out_of_reach k = True" for k by (simp add: out_of_reach_def)
  note H = handle_is_never_reset[OF c, of out_of_reach Disconnect "[0xDD]"]
  from H have 1: "client (snd (disconnect out_of_reach connected_once)) = Some 0"
    by blast
  from H have "disconnect out_of_reach connected_once =
      (Return PyNone,
       connected_once\<lparr>available := Some False,
         events := events connected_once @
           [Teardown 0 (teardown_ok out_of_reach (now connected_once)),
            Publish (Some False) (is_closed connected_once)]\<rparr>)"
    by blast
  then have 2: "available (snd (disconnect out_of_reach connected_once)) = Some False"
    by simp
  from H have 3: "since (snd (disconnect out_of_reach connected_once))
     (snd (disconnect out_of_reach (snd (disconnect out_of_reach connected_once)))) =
     [Teardown 0 True, Publish (Some False) None]"
    unfolding i t by blast
  from H f have 4: "\<exists>ok. last (events (snd (send_cmd out_of_reach [0xDD]
              (snd (disconnect out_of_reach connected_once))))) =
          Write 0 CONTROL_UUID [0xDD] ok"
    by blast
  from c f 1 2 3 4 show ?thesis by blast
qed

end
